theory Spec2Isabelle
  imports Complex_Main
begin

section \<open>JavaScript primitives used by the gallery\<close>

text \<open>
  Strings are lists of characters and are read as ASCII text.  Numbers that the program
  uses as counters, page numbers and indices are modelled as mathematical integers (the
  doubles of the program are exact on integers below \<open>2^53\<close>); \<open>NaN\<close> is \<open>None\<close> where the
  code can produce it.
\<close>

text \<open>\<open>String.prototype.split(sep)\<close> for a one-character separator: the result is never
  empty, \<open>"".split("#")\<close> is \<open>[""]\<close> and \<open>"#a".split("#")\<close> is \<open>["", "a"]\<close>.\<close>

fun split_on :: "char \<Rightarrow> string \<Rightarrow> string list" where
  "split_on d [] = [[]]"
| "split_on d (c # cs) =
     (if c = d then [] # split_on d cs
      else (c # hd (split_on d cs)) # tl (split_on d cs))"

text \<open>The ASCII white space and line terminators that \<open>String.prototype.trim\<close> removes:
  tab, line feed, vertical tab, form feed, carriage return and space.  (\<open>trim\<close> also
  removes the white space beyond ASCII, such as U+00A0 and U+FEFF, which the character type
  here does not have.)\<close>

definition isWhiteSpace :: "char \<Rightarrow> bool" where
  "isWhiteSpace c \<longleftrightarrow>
     c = CHR 0x09 \<or> c = CHR 0x0A \<or> c = CHR 0x0B \<or> c = CHR 0x0C \<or> c = CHR 0x0D \<or> c = CHR 0x20"

definition trim :: "string \<Rightarrow> string" where
  "trim s = rev (dropWhile isWhiteSpace (rev (dropWhile isWhiteSpace s)))"

text \<open>\<open>Array.prototype.indexOf\<close>: the first index holding the element, \<open>-1\<close> when there is
  none.\<close>

fun indexOf :: "'a list \<Rightarrow> 'a \<Rightarrow> int" where
  "indexOf [] y = - 1"
| "indexOf (x # xs) y =
     (if x = y then 0 else (let r = indexOf xs y in if r < 0 then - 1 else r + 1))"

text \<open>\<open>Array.prototype.filter\<close> with a callback that also reads the index; the second
  argument is the index of the head of the remaining list.\<close>

fun filter_index :: "('a \<Rightarrow> nat \<Rightarrow> bool) \<Rightarrow> nat \<Rightarrow> 'a list \<Rightarrow> 'a list" where
  "filter_index P i [] = []"
| "filter_index P i (x # xs) =
     (if P x i then x # filter_index P (Suc i) xs else filter_index P (Suc i) xs)"

text \<open>\<open>xs.slice(0, end)\<close> for an integral \<open>end\<close>: a negative \<open>end\<close> counts from the end of
  the array.\<close>

definition slice0 :: "'a list \<Rightarrow> int \<Rightarrow> 'a list" where
  "slice0 xs e =
     (let n = int (length xs);
          k = (if e < 0 then max (n + e) 0 else min e n)
      in take (nat k) xs)"


section \<open>Tag normalisation\<close>

text \<open>
  \<^verbatim>\<open>
  const processTags = (tags: string[], maxTags: number = 8) => {
    const allTags = tags.flatMap(tag => {
      return tag.split('#').filter(t => t.trim().length > 0);
    });
    return allTags
      .map(tag => tag.trim())
      .filter(tag => tag.length > 0)
      .filter((tag, index, self) => self.indexOf(tag) === index)
      .slice(0, maxTags);
  };
  \<close>
\<close>

definition processTags :: "string list \<Rightarrow> int \<Rightarrow> string list" where
  "processTags tags maxTags =
     (let allTags = concat (map (\<lambda>tag. filter (\<lambda>t. length (trim t) > 0)
                                         (split_on CHR ''#'' tag)) tags);
          trimmed = map (\<lambda>tag. trim tag) allTags;
          nonEmpty = filter (\<lambda>tag. length tag > 0) trimmed;
          unique = filter_index (\<lambda>tag index. indexOf nonEmpty tag = int index) 0 nonEmpty
      in slice0 unique maxTags)"

text \<open>The reference pipeline, written from the words of the specification: split every
  entry on \<open>#\<close>, discard empty fragments, trim each fragment, discard the fragments that are
  empty after trimming, deduplicate (case-sensitively) keeping the first occurrence, and
  truncate to the maximum count.\<close>

fun dedup_first :: "'a list \<Rightarrow> 'a list \<Rightarrow> 'a list" where
  "dedup_first seen [] = []"
| "dedup_first seen (x # xs) =
     (if x \<in> set seen then dedup_first seen xs else x # dedup_first (seen @ [x]) xs)"

definition reference_tags :: "string list \<Rightarrow> nat \<Rightarrow> string list" where
  "reference_tags raw n =
     take n (dedup_first []
       (filter (\<lambda>t. t \<noteq> [])
         (map trim
           (filter (\<lambda>t. t \<noteq> [])
             (concat (map (split_on CHR ''#'') raw))))))"

text \<open>A tag that normalisation leaves alone: not empty, free of the delimiter, and without
  white space at either end.\<close>

definition clean_tag :: "string \<Rightarrow> bool" where
  "clean_tag t \<longleftrightarrow> t \<noteq> [] \<and> CHR ''#'' \<notin> set t \<and> trim t = t"


section \<open>Projects and the persistence collaborator\<close>

text \<open>The \<open>Project\<close> interface.  The field \<open>_id\<close> is \<open>p_id\<close> and \<open>image\<close> is \<open>image_url\<close>
  here; \<open>category\<close> and \<open>status\<close> are strings at run time and are kept as strings, since the
  listing endpoint compares them with arbitrary query parameters.\<close>

record project =
  p_id :: string
  title :: string
  category :: string
  description :: string
  image_url :: string
  thumbnail :: "string option"
  likes :: int
  views :: int
  featured :: bool
  status :: string
  tags :: "string list"
  clientName :: "string option"
  projectUrl :: "string option"
  completedAt :: string

text \<open>The collection of project documents, in the store's natural order.  The driver
  calls the endpoints make are modelled on it: \<open>findById\<close> returns the document with the
  identifier, if any; \<open>findByIdAndUpdate(id, {$inc: ...}, {new: true})\<close> applies the
  increment to that document and returns the updated document, or nothing when there is
  none.  Identifiers are arbitrary strings here; the driver's rejection of a string that
  is not a well-formed object identifier is not modelled (such a request changes nothing
  either way).\<close>

type_synonym collection = "project list"

definition findById :: "collection \<Rightarrow> string \<Rightarrow> project option" where
  "findById coll i = find (\<lambda>p. p_id p = i) coll"

fun findByIdAndUpdate ::
  "collection \<Rightarrow> string \<Rightarrow> (project \<Rightarrow> project) \<Rightarrow> collection \<times> project option" where
  "findByIdAndUpdate [] i upd = ([], None)"
| "findByIdAndUpdate (p # ps) i upd =
     (if p_id p = i then (upd p # ps, Some (upd p))
      else (case findByIdAndUpdate ps i upd of (ps', r) \<Rightarrow> (p # ps', r)))"


section \<open>The view and like endpoints\<close>

text \<open>A parsed JSON value.  Numbers are represented by integers: zero is the only number a
  JSON body can carry that is falsy.\<close>

datatype json =
    JNull
  | JBool bool
  | JNum int
  | JStr string
  | JArr "json list"
  | JObj "(string \<times> json) list"

text \<open>JavaScript truthiness of a value read from a parsed body; \<open>None\<close> is \<open>undefined\<close>.\<close>

fun truthy :: "json option \<Rightarrow> bool" where
  "truthy None = False"
| "truthy (Some JNull) = False"
| "truthy (Some (JBool b)) = b"
| "truthy (Some (JNum n)) = (n \<noteq> 0)"
| "truthy (Some (JStr s)) = (s \<noteq> [])"
| "truthy (Some (JArr xs)) = True"
| "truthy (Some (JObj fs)) = True"

text \<open>\<open>const { liked } = body\<close>: destructuring \<open>null\<close> throws (the outer \<open>None\<close>); an object
  yields its \<open>liked\<close> property, the last one if the key was repeated in the text, or
  \<open>undefined\<close>; any other value has no such property.\<close>

fun destructure_liked :: "json \<Rightarrow> json option option" where
  "destructure_liked JNull = None"
| "destructure_liked (JObj fs) = Some (map_of (rev fs) ''liked'')"
| "destructure_liked j = Some None"

datatype like_response =
    LikeOk int string      \<comment> \<open>200: \<open>{likes, message}\<close>\<close>
  | LikeNotFound           \<comment> \<open>404: \<open>{error: "Project not found"}\<close>\<close>
  | LikeFailed             \<comment> \<open>500: \<open>{error: "Failed to update likes"}\<close>\<close>

datatype view_response =
    ViewOk int string      \<comment> \<open>200: \<open>{views, message}\<close>\<close>
  | ViewNotFound           \<comment> \<open>404: \<open>{error: "Project not found"}\<close>\<close>
  | ViewFailed             \<comment> \<open>500: \<open>{error: "Failed to update views"}\<close>\<close>

text \<open>
  \<open>POST /api/projects/[id]/like\<close>.  \<open>db_ok\<close> says whether \<open>connectDB()\<close> succeeds, \<open>body\<close>
  is the result of \<open>request.json()\<close>, \<open>None\<close> when it rejects.  Every exception ends in the
  \<open>catch\<close> block, which answers 500.
  \<^verbatim>\<open>
    const { id } = params;
    const { liked } = await request.json();
    const projectExists = await Project.findById(id);
    if (!projectExists) {
      return NextResponse.json({ error: "Project not found" }, { status: 404 });
    }
    const project = await Project.findByIdAndUpdate(
      id, { $inc: { likes: liked ? 1 : -1 } }, { new: true });
    return NextResponse.json({
      likes: project.likes,
      message: liked ? "Project liked" : "Project unliked",
    });
  \<close>
\<close>

definition like_POST ::
  "bool \<Rightarrow> collection \<Rightarrow> string \<Rightarrow> json option \<Rightarrow> collection \<times> like_response" where
  "like_POST db_ok coll i body =
     (if \<not> db_ok then (coll, LikeFailed)
      else case body of
        None \<Rightarrow> (coll, LikeFailed)
      | Some j \<Rightarrow>
         (case destructure_liked j of
            None \<Rightarrow> (coll, LikeFailed)
          | Some liked \<Rightarrow>
             (case findById coll i of
                None \<Rightarrow> (coll, LikeNotFound)
              | Some projectExists \<Rightarrow>
                 (case findByIdAndUpdate coll i
                         (\<lambda>p. p\<lparr>likes := likes p + (if truthy liked then 1 else - 1)\<rparr>) of
                    (coll', None) \<Rightarrow> (coll', LikeFailed)
                  | (coll', Some project) \<Rightarrow>
                      (coll', LikeOk (likes project)
                         (if truthy liked then ''Project liked'' else ''Project unliked''))))))"

text \<open>
  \<open>POST /api/projects/[id]/view\<close>:
  \<^verbatim>\<open>
    const projectExists = await Project.findById(id);
    if (!projectExists) {
      return NextResponse.json({ error: "Project not found" }, { status: 404 });
    }
    const project = await Project.findByIdAndUpdate(
      id, { $inc: { views: 1 } }, { new: true });
    return NextResponse.json({ views: project.views, message: "View counted" });
  \<close>
\<close>

definition view_POST ::
  "bool \<Rightarrow> collection \<Rightarrow> string \<Rightarrow> collection \<times> view_response" where
  "view_POST db_ok coll i =
     (if \<not> db_ok then (coll, ViewFailed)
      else case findById coll i of
        None \<Rightarrow> (coll, ViewNotFound)
      | Some projectExists \<Rightarrow>
         (case findByIdAndUpdate coll i (\<lambda>p. p\<lparr>views := views p + 1\<rparr>) of
            (coll', None) \<Rightarrow> (coll', ViewFailed)
          | (coll', Some project) \<Rightarrow> (coll', ViewOk (views project) ''View counted'')))"

text \<open>A sequence of requests to the two endpoints, each with the state of the database
  connection at that moment, applied to the collection one after the other.\<close>

datatype endpoint_op =
    ViewOp bool string
  | LikeOp bool string "json option"

fun apply_op :: "collection \<Rightarrow> endpoint_op \<Rightarrow> collection" where
  "apply_op coll (ViewOp db_ok i) = fst (view_POST db_ok coll i)"
| "apply_op coll (LikeOp db_ok i body) = fst (like_POST db_ok coll i body)"

fun run_ops :: "collection \<Rightarrow> endpoint_op list \<Rightarrow> collection" where
  "run_ops coll [] = coll"
| "run_ops coll (op # ops) = run_ops (apply_op coll op) ops"

text \<open>What one request adds to the likes counter of the project \<open>i\<close>, when that project
  exists: a request that reaches the increment adds \<open>1\<close> for a truthy \<open>liked\<close> and \<open>-1\<close>
  otherwise; a request for another project, or one that fails before the increment, adds
  nothing.\<close>

fun likes_delta :: "string \<Rightarrow> endpoint_op \<Rightarrow> int" where
  "likes_delta i (ViewOp db_ok i') = 0"
| "likes_delta i (LikeOp db_ok i' body) =
     (if db_ok \<and> i' = i then
        (case body of
           None \<Rightarrow> 0
         | Some j \<Rightarrow> (case destructure_liked j of
                       None \<Rightarrow> 0
                     | Some liked \<Rightarrow> if truthy liked then 1 else - 1))
      else 0)"


section \<open>The listing endpoint\<close>

text \<open>\<open>parseInt(string)\<close> without a radix: leading white space is skipped, a sign is
  read, a \<open>0x\<close> or \<open>0X\<close> prefix selects base 16, and the longest run of digits of the base
  is the number; the result is \<open>NaN\<close> (\<open>None\<close>) when that run is empty.\<close>

definition digit_value :: "char \<Rightarrow> nat option" where
  "digit_value c =
     (let n = (of_char c :: nat) in
      if 48 \<le> n \<and> n \<le> 57 then Some (n - 48)
      else if 97 \<le> n \<and> n \<le> 122 then Some (n - 87)
      else if 65 \<le> n \<and> n \<le> 90 then Some (n - 55)
      else None)"

definition is_digit :: "nat \<Rightarrow> char \<Rightarrow> bool" where
  "is_digit R c = (case digit_value c of None \<Rightarrow> False | Some v \<Rightarrow> v < R)"

definition digits_value :: "nat \<Rightarrow> string \<Rightarrow> nat" where
  "digits_value R Z =
     foldl (\<lambda>acc c. acc * R + (case digit_value c of None \<Rightarrow> 0 | Some v \<Rightarrow> v)) 0 Z"

definition parseInt :: "string \<Rightarrow> int option" where
  "parseInt inputString =
     (let S = dropWhile isWhiteSpace inputString;
          sign = (if S \<noteq> [] \<and> hd S = CHR ''-'' then - 1 else 1 :: int);
          S1 = (if S \<noteq> [] \<and> (hd S = CHR ''+'' \<or> hd S = CHR ''-'') then tl S else S);
          hex = (take 2 S1 = ''0x'' \<or> take 2 S1 = ''0X'');
          R = (if hex then 16 else 10);
          S2 = (if hex then drop 2 S1 else S1);
          Z = takeWhile (is_digit R) S2
      in if Z = [] then None else Some (sign * int (digits_value R Z)))"

text \<open>\<open>searchParams.get(name) || fallback\<close>: the fallback replaces a missing parameter and
  an empty one.\<close>

definition or_default :: "string option \<Rightarrow> string \<Rightarrow> string" where
  "or_default v d = (case v of None \<Rightarrow> d | Some s \<Rightarrow> if s = [] then d else s)"

record searchParams =
  page_param :: "string option"
  limit_param :: "string option"
  category_param :: "string option"
  status_param :: "string option"
  sortBy_param :: "string option"
  sortOrder_param :: "string option"

text \<open>
  \<^verbatim>\<open>
    const category = searchParams.get("category");
    const status = searchParams.get("status") || "published";
    const filter: any = { status };
    if (category && category !== "all") {
      filter.category = category;
    }
  \<close>
  The filter object \<open>{ status }\<close>, with \<open>category\<close> set only when the parameter is
  present, not empty and not \<open>"all"\<close>; a document matches when it has these values in
  these fields.\<close>

record db_filter =
  f_status :: string
  f_category :: "string option"

definition build_filter :: "searchParams \<Rightarrow> db_filter" where
  "build_filter q =
     \<lparr>f_status = or_default (status_param q) ''published'',
      f_category = (case category_param q of
                      None \<Rightarrow> None
                    | Some c \<Rightarrow> if c \<noteq> [] \<and> c \<noteq> ''all'' then Some c else None)\<rparr>"

definition matches :: "db_filter \<Rightarrow> project \<Rightarrow> bool" where
  "matches flt p \<longleftrightarrow>
     status p = f_status flt \<and>
     (case f_category flt of None \<Rightarrow> True | Some c \<Rightarrow> category p = c)"

text \<open>
  \<^verbatim>\<open>
    const sort: any = {};
    const sortFields = sortBy.split(",");
    const sortOrders = sortOrder.split(",");
    sortFields.forEach((field, index) => {
      const order = sortOrders[index] === "desc" ? -1 : 1;
      sort[field] = order;
    });
  \<close>
  The sort object is the list of its keys with their values, in insertion order.
  Assigning to a key that is already there replaces its value and keeps its place; a new
  key goes to the end (JavaScript moves keys that are canonical array indices to the
  front; field names are not expected to be such).  \<open>sortOrders[index]\<close> is \<open>undefined\<close>
  past the end of the array, which gives the order \<open>1\<close>.\<close>

fun assign :: "string \<Rightarrow> int \<Rightarrow> (string \<times> int) list \<Rightarrow> (string \<times> int) list" where
  "assign k v [] = [(k, v)]"
| "assign k v ((k', v') # kvs) =
     (if k' = k then (k, v) # kvs else (k', v') # assign k v kvs)"

fun sort_entries ::
  "string list \<Rightarrow> string list \<Rightarrow> (string \<times> int) list \<Rightarrow> (string \<times> int) list" where
  "sort_entries [] sortOrders acc = acc"
| "sort_entries (field # sortFields) sortOrders acc =
     sort_entries sortFields (tl sortOrders)
       (assign field (if sortOrders \<noteq> [] \<and> hd sortOrders = ''desc'' then - 1 else 1) acc)"

definition build_sort :: "searchParams \<Rightarrow> (string \<times> int) list" where
  "build_sort q =
     sort_entries (split_on CHR '','' (or_default (sortBy_param q) ''featured,createdAt''))
                  (split_on CHR '','' (or_default (sortOrder_param q) ''desc'')) []"

text \<open>The query \<open>Project.find(filter).sort(sort).skip(skip).limit(limit)\<close> and
  \<open>Project.countDocuments(filter)\<close>.  How the store orders documents for a sort object is
  the store's business and is a parameter \<open>sorter\<close> here.  A skip or limit that is \<open>NaN\<close>
  and a negative skip make the query fail; a limit of zero means no limit and a negative
  limit counts as its absolute value.\<close>

type_synonym sorter = "(string \<times> int) list \<Rightarrow> project list \<Rightarrow> project list"

definition find_sorted_page ::
  "sorter \<Rightarrow> collection \<Rightarrow> db_filter \<Rightarrow> (string \<times> int) list \<Rightarrow> int option \<Rightarrow> int option
     \<Rightarrow> project list option" where
  "find_sorted_page srt coll flt so skip_n limit_n =
     (case (skip_n, limit_n) of
        (Some s, Some l) \<Rightarrow>
          if s < 0 then None
          else (let docs = drop (nat s) (srt so (filter (matches flt) coll))
                in Some (if l = 0 then docs else take (nat \<bar>l\<bar>) docs))
      | _ \<Rightarrow> None)"

definition countDocuments :: "collection \<Rightarrow> db_filter \<Rightarrow> int" where
  "countDocuments coll flt = int (length (filter (matches flt) coll))"

text \<open>\<open>Math.ceil(total / limit)\<close>, with the values a zero divisor gives.\<close>

datatype jsnum = NaN | PosInf | NegInf | Num int

definition ceil_div :: "int \<Rightarrow> int \<Rightarrow> jsnum" where
  "ceil_div t l =
     (if l = 0 then (if t = 0 then NaN else if 0 < t then PosInf else NegInf)
      else Num (- ((- t) div l)))"

record listing_pagination =
  lp_page :: int
  lp_limit :: int
  lp_total :: int
  lp_pages :: jsnum

datatype listing_response =
    ListingOk "project list" listing_pagination   \<comment> \<open>200: \<open>{projects, pagination}\<close>\<close>
  | ListingFailed                                 \<comment> \<open>500: \<open>{error: "Failed to fetch projects"}\<close>\<close>

text \<open>
  \<open>GET /api/projects\<close>; \<open>db_ok\<close> says whether \<open>connectDB()\<close> succeeds.  When it does not, or
  when the query fails, the \<open>catch\<close> block answers 500.
  \<^verbatim>\<open>
    const page = parseInt(searchParams.get("page") || "1");
    const limit = parseInt(searchParams.get("limit") || "12");
    const category = searchParams.get("category");
    const status = searchParams.get("status") || "published";
    const sortBy = searchParams.get("sortBy") || "featured,createdAt";
    const sortOrder = searchParams.get("sortOrder") || "desc";
    const skip = (page - 1) * limit;
    (filter and sort are built as above)
    const [projects, total] = await Promise.all([
      Project.find(filter).sort(sort).skip(skip).limit(limit).lean(),
      Project.countDocuments(filter),
    ]);
    return NextResponse.json({
      projects,
      pagination: { page, limit, total, pages: Math.ceil(total / limit) },
    });
  \<close>
\<close>

definition GET :: "bool \<Rightarrow> sorter \<Rightarrow> collection \<Rightarrow> searchParams \<Rightarrow> listing_response" where
  "GET db_ok srt coll q =
     (if \<not> db_ok then ListingFailed
      else
        let page = parseInt (or_default (page_param q) ''1'');
            limit = parseInt (or_default (limit_param q) ''12'');
            skip = (case (page, limit) of
                      (Some p, Some l) \<Rightarrow> Some ((p - 1) * l)
                    | _ \<Rightarrow> None);
            flt = build_filter q;
            so = build_sort q
        in case (find_sorted_page srt coll flt so skip limit, page, limit) of
             (Some projects, Some p, Some l) \<Rightarrow>
               let total = countDocuments coll flt
               in ListingOk projects
                    \<lparr>lp_page = p, lp_limit = l, lp_total = total, lp_pages = ceil_div total l\<rparr>
           | _ \<Rightarrow> ListingFailed)"


section \<open>The gallery component\<close>

text \<open>
  The state of \<open>DynamicPortfolio\<close> that its handlers read and write (\<open>filter\<close> is
  \<open>filter'\<close>; \<open>hoveredIndex\<close> is never touched by them and is left out).

  Every handler is asynchronous: it runs up to its \<open>fetch\<close>, the promise settles later,
  and the rest of the handler runs then.  Each handler is therefore two functions: the
  part before the \<open>await\<close>, which returns the new state and the network call it issues, if
  any, and the part after it (\<open>_settled\<close>), which takes the state of that later moment and
  the outcome of the call.  Values the closure captured at dispatch (\<open>page\<close>, \<open>filter\<close>,
  \<open>project\<close>, \<open>isLiked\<close>) are arguments of the second part.  A state update with an
  updater function (\<open>setX(prev => ...)\<close>) applies to the state of the moment it runs.

  What a handler reads directly (\<open>pendingRequests.has(...)\<close>, \<open>likedProjects.has(...)\<close>,
  \<open>currentPage\<close>, \<open>isLoadingMore\<close>) is the state of the render that created its closure.
  The first parts \<open>fetchProjects\<close>, \<open>handleProjectClick\<close> and \<open>handleLike\<close> below are those
  of a handler whose closure is up to date: the state \<open>s\<close> they read is the state their
  updates apply to.  The section on closures gives \<open>fetchProjects\<close> and
  \<open>loadMoreProjects\<close> for a closure that may be older than the state.
\<close>

record pagination =
  pg_page :: int
  pg_limit :: int
  pg_total :: int
  pg_pages :: int

record ApiResponse =
  ar_projects :: "project list"
  ar_pagination :: pagination

record state =
  projects :: "project list"
  selectedImage :: "project option"
  filter' :: string
  loading :: bool
  likedProjects :: "string set"
  currentPage :: int
  totalPages :: int
  isLoadingMore :: bool
  hasMore :: bool
  pendingRequests :: "string set"

text \<open>How a \<open>fetch\<close> ends: the promise rejects (a network failure), or it resolves with a
  response whose \<open>ok\<close> flag is given, together with the result of \<open>response.json()\<close>,
  \<open>None\<close> when that rejects.  An HTTP error status resolves the promise, with \<open>ok\<close> false.\<close>

datatype 'a fetch_outcome = Rejected | Resolved bool "'a option"

text \<open>\<open>Number.prototype.toString\<close> for an integer.\<close>

function string_of_nat :: "nat \<Rightarrow> string" where
  "string_of_nat n =
     (if n < 10 then [char_of (48 + n)]
      else string_of_nat (n div 10) @ [char_of (48 + n mod 10)])"
  by pat_completeness auto
termination
  by (relation "measure id") auto

declare string_of_nat.simps [simp del]

definition string_of_int :: "int \<Rightarrow> string" where
  "string_of_int i = (if i < 0 then CHR ''-'' # string_of_nat (nat (- i)) else string_of_nat (nat i))"

text \<open>The request keys: \<open>`${page}-${filter}`\<close>, \<open>`view-${project._id}`\<close> and
  \<open>`like-${project._id}`\<close>.\<close>

definition list_key :: "int \<Rightarrow> string \<Rightarrow> string" where
  "list_key pg flt = string_of_int pg @ ''-'' @ flt"

definition view_key :: "project \<Rightarrow> string" where
  "view_key project = ''view-'' @ p_id project"

definition like_key :: "project \<Rightarrow> string" where
  "like_key project = ''like-'' @ p_id project"

text \<open>The network calls: the listing request for a page and a filter, the view request for
  a project, and the like request for a project, which carries \<open>liked: !isLiked\<close>; the
  boolean kept here is \<open>isLiked\<close>.\<close>

datatype call =
    ListCall int string
  | ViewCall project
  | LikeCall project bool

fun call_key :: "call \<Rightarrow> string" where
  "call_key (ListCall pg flt) = list_key pg flt"
| "call_key (ViewCall project) = view_key project"
| "call_key (LikeCall project isLiked) = like_key project"

text \<open>
  \<^verbatim>\<open>
  const fetchProjects = useCallback(async (page, filter, isLoadMore = false) => {
    const requestKey = `${page}-${filter}`;
    if (pendingRequests.has(requestKey)) return;
    setPendingRequests(prev => new Set(prev).add(requestKey));
    if (isLoadMore) { setIsLoadingMore(true); } else { setLoading(true); }
    try {
      ...
      const response = await fetch(`/api/projects?${params}`);
      if (!response.ok) throw new Error('Failed to fetch projects');
      const data: ApiResponse = await response.json();
      if (page === 1) {
        setProjects(data.projects);
      } else {
        setProjects(prev => {
          const existingIds = new Set(prev.map(p => p._id));
          const newProjects = data.projects.filter(p => !existingIds.has(p._id));
          return [...prev, ...newProjects];
        });
      }
      setTotalPages(data.pagination.pages);
      setHasMore(page < data.pagination.pages);
    } catch (error) {
      console.error('Failed to fetch projects:', error);
    } finally {
      setLoading(false);
      setIsLoadingMore(false);
      setPendingRequests(prev => { const newSet = new Set(prev);
                                   newSet.delete(requestKey); return newSet; });
    }
  }, [pendingRequests]);
  \<close>
\<close>

definition fetchProjects :: "state \<Rightarrow> int \<Rightarrow> string \<Rightarrow> bool \<Rightarrow> state \<times> call option" where
  "fetchProjects s pg flt isLoadMore =
     (let requestKey = list_key pg flt in
      if requestKey \<in> pendingRequests s then (s, None)
      else
        let s1 = s\<lparr>pendingRequests := insert requestKey (pendingRequests s)\<rparr>;
            s2 = (if isLoadMore then s1\<lparr>isLoadingMore := True\<rparr> else s1\<lparr>loading := True\<rparr>)
        in (s2, Some (ListCall pg flt)))"

definition fetchProjects_settled ::
  "state \<Rightarrow> int \<Rightarrow> string \<Rightarrow> ApiResponse fetch_outcome \<Rightarrow> state" where
  "fetchProjects_settled s pg flt outcome =
     (let requestKey = list_key pg flt;
          s1 = (case outcome of
                  Resolved True (Some data) \<Rightarrow>
                    (let s' = (if pg = 1 then s\<lparr>projects := ar_projects data\<rparr>
                               else
                                 let prev = projects s;
                                     existingIds = set (map p_id prev);
                                     newProjects =
                                       filter (\<lambda>p. p_id p \<notin> existingIds) (ar_projects data)
                                 in s\<lparr>projects := prev @ newProjects\<rparr>)
                     in s'\<lparr>totalPages := pg_pages (ar_pagination data),
                            hasMore := (pg < pg_pages (ar_pagination data))\<rparr>)
                | _ \<Rightarrow> s)
      in s1\<lparr>loading := False, isLoadingMore := False,
             pendingRequests := pendingRequests s1 - {requestKey}\<rparr>)"

text \<open>
  \<^verbatim>\<open>
  const handleProjectClick = async (project: Project) => {
    const requestKey = `view-${project._id}`;
    if (pendingRequests.has(requestKey)) return;
    setPendingRequests(prev => new Set(prev).add(requestKey));
    try {
      await fetch(`/api/projects/${project._id}/view`, { method: 'POST' });
      setProjects(prev =>
        prev.map(p =>
          p._id === project._id && p.views === project.views
            ? { ...p, views: p.views + 1 }
            : p));
    } catch (error) {
      console.error('Failed to track view:', error);
    } finally {
      setPendingRequests(prev => { const newSet = new Set(prev);
                                   newSet.delete(requestKey); return newSet; });
    }
    setSelectedImage(project);
  };
  \<close>
  The response is not inspected: whatever resolves the promise reaches \<open>setProjects\<close>.
\<close>

definition handleProjectClick :: "state \<Rightarrow> project \<Rightarrow> state \<times> call option" where
  "handleProjectClick s project =
     (let requestKey = view_key project in
      if requestKey \<in> pendingRequests s then (s, None)
      else (s\<lparr>pendingRequests := insert requestKey (pendingRequests s)\<rparr>,
            Some (ViewCall project)))"

definition handleProjectClick_settled ::
  "state \<Rightarrow> project \<Rightarrow> 'a fetch_outcome \<Rightarrow> state" where
  "handleProjectClick_settled s project outcome =
     (let requestKey = view_key project;
          s1 = (case outcome of
                  Rejected \<Rightarrow> s
                | Resolved ok body \<Rightarrow>
                    s\<lparr>projects :=
                        map (\<lambda>p. if p_id p = p_id project \<and> views p = views project
                                  then p\<lparr>views := views p + 1\<rparr> else p)
                            (projects s)\<rparr>);
          s2 = s1\<lparr>pendingRequests := pendingRequests s1 - {requestKey}\<rparr>
      in s2\<lparr>selectedImage := Some project\<rparr>)"

text \<open>
  \<^verbatim>\<open>
  const handleLike = async (project: Project, e: React.MouseEvent) => {
    e.stopPropagation();
    const requestKey = `like-${project._id}`;
    if (pendingRequests.has(requestKey)) return;
    const isLiked = likedProjects.has(project._id);
    const newLikedState = new Set(likedProjects);
    if (isLiked) { newLikedState.delete(project._id); }
    else { newLikedState.add(project._id); }
    setLikedProjects(newLikedState);
    setPendingRequests(prev => new Set(prev).add(requestKey));
    try {
      const response = await fetch(`/api/projects/${project._id}/like`, {
        method: 'POST', headers: { 'Content-Type': 'application/json' },
        body: JSON.stringify({ liked: !isLiked }) });
      if (!response.ok) throw new Error('Like request failed');
      const result = await response.json();
      setProjects(prev =>
        prev.map(p => p._id === project._id ? { ...p, likes: result.likes } : p));
    } catch (error) {
      console.error('Failed to update like:', error);
      setLikedProjects(prev => {
        const newSet = new Set(prev);
        if (isLiked) { newSet.add(project._id); } else { newSet.delete(project._id); }
        return newSet;
      });
    } finally {
      setPendingRequests(prev => { const newSet = new Set(prev);
                                   newSet.delete(requestKey); return newSet; });
    }
  };
  \<close>
  The body of a successful response is its \<open>likes\<close> number.
\<close>

definition handleLike :: "state \<Rightarrow> project \<Rightarrow> state \<times> call option" where
  "handleLike s project =
     (let requestKey = like_key project in
      if requestKey \<in> pendingRequests s then (s, None)
      else
        let isLiked = (p_id project \<in> likedProjects s);
            newLikedState = (if isLiked then likedProjects s - {p_id project}
                             else insert (p_id project) (likedProjects s))
        in (s\<lparr>likedProjects := newLikedState,
               pendingRequests := insert requestKey (pendingRequests s)\<rparr>,
            Some (LikeCall project isLiked)))"

definition handleLike_settled ::
  "state \<Rightarrow> project \<Rightarrow> bool \<Rightarrow> int fetch_outcome \<Rightarrow> state" where
  "handleLike_settled s project isLiked outcome =
     (let requestKey = like_key project;
          s1 = (case outcome of
                  Resolved True (Some result_likes) \<Rightarrow>
                    s\<lparr>projects :=
                        map (\<lambda>p. if p_id p = p_id project then p\<lparr>likes := result_likes\<rparr> else p)
                            (projects s)\<rparr>
                | _ \<Rightarrow>
                    s\<lparr>likedProjects :=
                        (if isLiked then insert (p_id project) (likedProjects s)
                         else likedProjects s - {p_id project})\<rparr>)
      in s1\<lparr>pendingRequests := pendingRequests s1 - {requestKey}\<rparr>)"

subsection \<open>Closures\<close>

text \<open>
  \<^verbatim>\<open>
  const fetchProjects = useCallback(async (page, filter, isLoadMore = false) => {
    const requestKey = `${page}-${filter}`;
    if (pendingRequests.has(requestKey)) return;
    setPendingRequests(prev => new Set(prev).add(requestKey));
    if (isLoadMore) { setIsLoadingMore(true); } else { setLoading(true); }
    ...
  }, [pendingRequests]);

  const loadMoreProjects = () => {
    if (currentPage < totalPages && !isLoadingMore) {
      const nextPage = currentPage + 1;
      setCurrentPage(nextPage);
      fetchProjects(nextPage, filter, true);
    }
  };
  \<close>
  Both functions are created by a render and see the state of that render: \<open>r\<close> below.
  A state update they make does not change \<open>r\<close>; it changes the state of the component,
  \<open>s\<close> below, and the closures of the next render will see it.  Until that render is
  committed, a handler that is invoked again is the same closure and reads \<open>r\<close> again.
  So the guards \<open>pendingRequests.has(requestKey)\<close>, \<open>currentPage < totalPages\<close> and
  \<open>!isLoadingMore\<close>, the page \<open>currentPage + 1\<close> and the \<open>filter\<close> are read from \<open>r\<close>; the
  updater \<open>prev => new Set(prev).add(requestKey)\<close> applies to \<open>s\<close>, and
  \<open>setCurrentPage(nextPage)\<close>, \<open>setIsLoadingMore(true)\<close> and \<open>setLoading(true)\<close> store their
  values in \<open>s\<close>.  \<open>fetchProjects\<close> is memoised on \<open>pendingRequests\<close>, so the one that
  \<open>loadMoreProjects\<close> calls is of the same render.
\<close>

definition fetchProjects_closure ::
  "state \<Rightarrow> state \<Rightarrow> int \<Rightarrow> string \<Rightarrow> bool \<Rightarrow> state \<times> call option" where
  "fetchProjects_closure r s pg flt isLoadMore =
     (let requestKey = list_key pg flt in
      if requestKey \<in> pendingRequests r then (s, None)
      else
        let s1 = s\<lparr>pendingRequests := insert requestKey (pendingRequests s)\<rparr>;
            s2 = (if isLoadMore then s1\<lparr>isLoadingMore := True\<rparr> else s1\<lparr>loading := True\<rparr>)
        in (s2, Some (ListCall pg flt)))"

definition loadMoreProjects :: "state \<Rightarrow> state \<Rightarrow> state \<times> call option" where
  "loadMoreProjects r s =
     (if currentPage r < totalPages r \<and> \<not> isLoadingMore r then
        let nextPage = currentPage r + 1
        in fetchProjects_closure r (s\<lparr>currentPage := nextPage\<rparr>) nextPage (filter' r) True
      else (s, None))"


text \<open>The state of the first render (the arguments of the \<open>useState\<close> calls), and a
  project record with given identifier, likes and views for the examples below.\<close>

definition initial_state :: state where
  "initial_state =
     \<lparr>projects = [], selectedImage = None, filter' = ''all'', loading = True,
      likedProjects = {}, currentPage = 1, totalPages = 1, isLoadingMore = False,
      hasMore = True, pendingRequests = {}\<rparr>"

definition sample_project :: "string \<Rightarrow> int \<Rightarrow> int \<Rightarrow> project" where
  "sample_project i l v =
     \<lparr>p_id = i, title = ''Poster'', category = ''poster'', description = ''A poster'',
      image_url = ''/img/poster.png'', thumbnail = None, likes = l, views = v,
      featured = False, status = ''published'', tags = [''#a#b'', ''c'', ''#a''],
      clientName = None, projectUrl = None, completedAt = ''2024-01-01''\<rparr>"


section \<open>Properties of tag normalisation\<close>

lemma trim_Nil: "trim [] = []"
  by (simp add: trim_def)

lemma trim_fragments:
  "filter (\<lambda>t. t \<noteq> []) (map trim (filter (\<lambda>t. length (trim t) > 0) xs)) =
   filter (\<lambda>t. t \<noteq> []) (map trim (filter (\<lambda>t. t \<noteq> []) xs))"
  by (induction xs) (auto simp: trim_Nil)

lemma indexOf_range: "indexOf xs y < int (length xs) \<and> - 1 \<le> indexOf xs y"
  by (induction xs) (auto simp: Let_def)

lemma indexOf_absent:
  "y \<notin> set xs \<Longrightarrow>
   indexOf (xs @ ys) y = (if indexOf ys y < 0 then - 1 else int (length xs) + indexOf ys y)"
  using indexOf_range[of ys y] by (induction xs) (auto simp: Let_def)

lemma indexOf_present:
  "y \<in> set xs \<Longrightarrow> 0 \<le> indexOf (xs @ ys) y \<and> indexOf (xs @ ys) y < int (length xs)"
  by (induction xs) (auto simp: Let_def)

lemma indexOf_first: "indexOf (pre @ x # rest) x = int (length pre) \<longleftrightarrow> x \<notin> set pre"
  using indexOf_present[of x pre "x # rest"] indexOf_absent[of x pre "x # rest"]
  by (cases "x \<in> set pre") auto

lemma dedup_first_cong: "set a = set b \<Longrightarrow> dedup_first a xs = dedup_first b xs"
proof (induction xs arbitrary: a b)
  case Nil
  show ?case by simp
next
  case (Cons x xs)
  have mem: "x \<in> set a \<longleftrightarrow> x \<in> set b"
    by (simp only: Cons.prems)
  have "set (a @ [x]) = set (b @ [x])"
    by (simp only: set_append Cons.prems)
  then have ext: "dedup_first (a @ [x]) xs = dedup_first (b @ [x]) xs"
    by (rule Cons.IH)
  have same: "dedup_first a xs = dedup_first b xs"
    using Cons.prems by (rule Cons.IH)
  show ?case
    by (simp only: dedup_first.simps mem ext same)
qed

text \<open>Keeping the elements whose first index is their own index is first-occurrence
  deduplication; \<open>pre\<close> is the part of the array already passed.\<close>

lemma filter_index_dedup:
  "filter_index (\<lambda>x i. indexOf (pre @ xs) x = int i) (length pre) xs = dedup_first pre xs"
proof (induction xs arbitrary: pre)
  case Nil
  show ?case by simp
next
  case (Cons x xs)
  have "filter_index (\<lambda>y i. indexOf ((pre @ [x]) @ xs) y = int i) (length (pre @ [x])) xs
        = dedup_first (pre @ [x]) xs"
    by (rule Cons.IH)
  then have step: "filter_index (\<lambda>y i. indexOf (pre @ x # xs) y = int i) (Suc (length pre)) xs
        = dedup_first (pre @ [x]) xs"
    by simp
  show ?case
  proof (cases "x \<in> set pre")
    case True
    then have "set (pre @ [x]) = set pre" by auto
    then have "dedup_first (pre @ [x]) xs = dedup_first pre xs" by (rule dedup_first_cong)
    with True step show ?thesis by (simp add: indexOf_first)
  next
    case False
    then show ?thesis using step by (simp add: indexOf_first)
  qed
qed

lemma filter_index_dedup0:
  "filter_index (\<lambda>x i. indexOf xs x = int i) 0 xs = dedup_first [] xs"
  using filter_index_dedup[of "[]" xs] by simp

lemma frag_concat:
  "concat (map (\<lambda>tag. filter P (split_on d tag)) raw) =
   filter P (concat (map (split_on d) raw))"
  by (induction raw) auto

lemma slice0_nat: "slice0 xs (int n) = take n xs"
  by (cases "n \<le> length xs") (auto simp: slice0_def Let_def)

lemma length_pos_filter:
  "filter (\<lambda>tag. length tag > 0) xs = filter (\<lambda>t. t \<noteq> []) xs"
  by simp

lemma processTags_unfold:
  "processTags raw m =
     slice0 (dedup_first [] (filter (\<lambda>t. t \<noteq> []) (map trim (filter (\<lambda>t. t \<noteq> [])
        (concat (map (split_on CHR ''#'') raw)))))) m"
  by (simp only: processTags_def Let_def frag_concat
        length_pos_filter filter_index_dedup0 trim_fragments)

text \<open>
  Claim C3.  For every sequence of raw raw and every maximum count, \<open>processTags\<close> returns
  what the reference pipeline returns (split on \<open>#\<close>, drop empty fragments, trim, drop the
  fragments that trimming emptied, keep first occurrences, truncate); and on
  \<open>["#a#b", "c", "#a"]\<close> with limit 8 it returns \<open>["a", "b", "c"]\<close>.
\<close>

theorem processTags_refines_reference:
  "processTags raw (int n) = reference_tags raw n \<and>
   processTags [''#a#b'', ''c'', ''#a''] 8 = [''a'', ''b'', ''c'']"
proof
  show "processTags raw (int n) = reference_tags raw n"
    by (simp only: processTags_unfold reference_tags_def slice0_nat)
  show "processTags [''#a#b'', ''c'', ''#a''] 8 = [''a'', ''b'', ''c'']"
    by (simp add: processTags_def trim_def isWhiteSpace_def slice0_def)
qed

lemma split_on_no_sep: "w \<in> set (split_on d s) \<Longrightarrow> d \<notin> set w"
proof (induction s arbitrary: w)
  case Nil
  then show ?case by simp
next
  case (Cons c cs)
  have ne: "split_on d cs \<noteq> []" by (cases cs) auto
  then have hd_in: "hd (split_on d cs) \<in> set (split_on d cs)" by simp
  have tl_in: "set (tl (split_on d cs)) \<subseteq> set (split_on d cs)"
    using ne by (cases "split_on d cs") auto
  show ?case
  proof (cases "c = d")
    case True
    with Cons show ?thesis by auto
  next
    case False
    with Cons.prems have "w = c # hd (split_on d cs) \<or> w \<in> set (tl (split_on d cs))"
      by simp
    then show ?thesis
      using False Cons.IH hd_in tl_in by auto
  qed
qed

lemma split_on_whole: "d \<notin> set s \<Longrightarrow> split_on d s = [s]"
  by (induction s) auto

lemma set_trim: "set (trim s) \<subseteq> set s"
proof -
  have "set (trim s) = set (dropWhile isWhiteSpace (rev (dropWhile isWhiteSpace s)))"
    by (simp add: trim_def)
  also have "\<dots> \<subseteq> set (rev (dropWhile isWhiteSpace s))"
    by (meson set_dropWhileD subsetI)
  also have "\<dots> \<subseteq> set s"
    using set_dropWhileD by fastforce
  finally show ?thesis .
qed

lemma trim_trim: "trim (trim s) = trim s"
proof -
  let ?P = isWhiteSpace
  define u where "u = dropWhile ?P s"
  define d where "d = dropWhile ?P (rev u)"
  have ts: "trim s = rev d" by (simp add: trim_def u_def d_def)
  have dd: "dropWhile ?P d = d" by (simp add: d_def)
  have u_split: "u = rev d @ rev (takeWhile ?P (rev u))"
  proof -
    have "rev u = takeWhile ?P (rev u) @ d" by (simp add: d_def)
    then have "rev (rev u) = rev (takeWhile ?P (rev u) @ d)" by simp
    then show ?thesis by simp
  qed
  have front: "dropWhile ?P (rev d) = rev d"
  proof (cases "rev d")
    case Nil
    then show ?thesis by simp
  next
    case (Cons a as)
    with u_split have ua: "u = a # (as @ rev (takeWhile ?P (rev u)))" by simp
    have "hd u = a" by (subst ua) simp
    moreover have "u \<noteq> []" by (subst ua) simp
    moreover have "u \<noteq> [] \<Longrightarrow> \<not> ?P (hd u)"
      unfolding u_def by (rule hd_dropWhile)
    ultimately have "\<not> ?P a" by auto
    with Cons show ?thesis by simp
  qed
  have "trim (rev d) = rev (dropWhile ?P (rev (dropWhile ?P (rev d))))"
    by (simp add: trim_def)
  also have "\<dots> = rev d" by (simp add: front dd)
  finally show ?thesis by (simp add: ts)
qed

lemma dedup_first_set: "set (dedup_first seen xs) = set xs - set seen"
  by (induction seen xs rule: dedup_first.induct) auto

lemma dedup_first_distinct: "distinct (dedup_first seen xs)"
  by (induction seen xs rule: dedup_first.induct) (auto simp: dedup_first_set)

lemma dedup_first_id:
  "distinct xs \<Longrightarrow> set seen \<inter> set xs = {} \<Longrightarrow> dedup_first seen xs = xs"
  by (induction seen xs rule: dedup_first.induct) auto

lemma slice0_take: "\<exists>k. slice0 xs e = take k xs"
  by (auto simp: slice0_def Let_def)

lemma slice0_all: "int (length xs) \<le> e \<Longrightarrow> slice0 xs e = xs"
  by (auto simp: slice0_def Let_def)

lemma processTags_clean:
  assumes a: "t \<in> set (processTags raw m)"
  shows "clean_tag t"
proof -
  let ?F = "filter (\<lambda>t. t \<noteq> []) (concat (map (split_on CHR ''#'') raw))"
  let ?N = "filter (\<lambda>t. t \<noteq> []) (map trim ?F)"
  obtain k where k: "processTags raw m = take k (dedup_first [] ?N)"
    using slice0_take[of "dedup_first [] ?N" m] by (auto simp only: processTags_unfold)
  from a k have "t \<in> set (dedup_first [] ?N)" by (auto dest: in_set_takeD)
  then have "t \<in> set ?N" by (simp only: dedup_first_set) simp
  then obtain f where f: "f \<in> set ?F" "t = trim f" "t \<noteq> []" by auto
  from f(1) obtain tag where "f \<in> set (split_on CHR ''#'' tag)" by auto
  then have "CHR ''#'' \<notin> set f" by (rule split_on_no_sep)
  with set_trim[of f] f(2) have "CHR ''#'' \<notin> set t" by auto
  moreover have "trim t = t" using f(2) trim_trim by simp
  ultimately show ?thesis using f(3) by (simp add: clean_tag_def)
qed

lemma processTags_distinct: "distinct (processTags raw m)"
proof -
  let ?N = "filter (\<lambda>t. t \<noteq> []) (map trim (filter (\<lambda>t. t \<noteq> [])
              (concat (map (split_on CHR ''#'') raw))))"
  obtain k where k: "processTags raw m = take k (dedup_first [] ?N)"
    using slice0_take[of "dedup_first [] ?N" m] by (auto simp only: processTags_unfold)
  show ?thesis by (simp only: k distinct_take dedup_first_distinct)
qed

lemma processTags_fixed:
  assumes cl: "\<forall>t \<in> set ys. clean_tag t" and di: "distinct ys"
    and le: "int (length ys) \<le> n"
  shows "processTags ys n = ys"
proof -
  have sp: "concat (map (split_on CHR ''#'') ys) = ys"
    using cl by (induction ys) (auto simp: clean_tag_def split_on_whole)
  have ne: "filter (\<lambda>t. t \<noteq> []) ys = ys"
    using cl by (auto simp: clean_tag_def filter_id_conv)
  have tr: "map trim ys = ys"
    using cl by (auto simp: clean_tag_def map_idI)
  have de: "dedup_first [] ys = ys"
    using di by (simp add: dedup_first_id)
  show ?thesis
    by (simp only: processTags_unfold sp ne tr de slice0_all[OF le])
qed

text \<open>
  Claim C4.  Tag normalisation is idempotent: normalising an output of \<open>processTags\<close> again,
  with any limit that is at least the length of that output, returns it unchanged.
\<close>

theorem processTags_idempotent:
  "int (length (processTags raw m)) \<le> n \<Longrightarrow>
   processTags (processTags raw m) n = processTags raw m"
  by (rule processTags_fixed) (auto simp: processTags_clean processTags_distinct)

theorem processTags_idempotent_witness:
  "int (length (processTags [''#a #b'', '' c'', ''# '', ''#a''] 8)) \<le> 3 \<and>
   processTags (processTags [''#a #b'', '' c'', ''# '', ''#a''] 8) 3 =
     processTags [''#a #b'', '' c'', ''# '', ''#a''] 8"
proof -
  have h: "int (length (processTags [''#a #b'', '' c'', ''# '', ''#a''] 8)) \<le> 3"
    by (simp add: processTags_def trim_def isWhiteSpace_def slice0_def)
  from processTags_idempotent[OF h] h show ?thesis by (intro conjI)
qed


section \<open>Properties of the view and like endpoints\<close>

lemma findByIdAndUpdate_found:
  "findById coll i = Some p \<Longrightarrow>
   \<exists>coll'. findByIdAndUpdate coll i upd = (coll', Some (upd p)) \<and>
     (p_id (upd p) = i \<longrightarrow> findById coll' i = Some (upd p))"
proof (induction coll)
  case Nil
  then show ?case by (simp add: findById_def)
next
  case (Cons q qs)
  show ?case
  proof (cases "p_id q = i")
    case True
    with Cons.prems have "q = p" by (simp add: findById_def)
    with True show ?thesis by (simp add: findById_def)
  next
    case False
    with Cons.prems have "findById qs i = Some p" by (simp add: findById_def)
    from Cons.IH[OF this] obtain qs' where
      q: "findByIdAndUpdate qs i upd = (qs', Some (upd p))"
         "p_id (upd p) = i \<longrightarrow> findById qs' i = Some (upd p)" by blast
    with False show ?thesis by (simp add: findById_def)
  qed
qed

lemma findByIdAndUpdate_other:
  assumes "\<And>q. p_id (upd q) = p_id q" and "i' \<noteq> i"
  shows "findById (fst (findByIdAndUpdate coll i' upd)) i = findById coll i"
proof (induction coll)
  case Nil
  show ?case by simp
next
  case (Cons q qs)
  show ?case
  proof (cases "p_id q = i'")
    case True
    with assms show ?thesis by (simp add: findById_def)
  next
    case False
    obtain qs' r where r: "findByIdAndUpdate qs i' upd = (qs', r)"
      by (cases "findByIdAndUpdate qs i' upd")
    with Cons.IH have "findById qs' i = findById qs i" by simp
    with False r show ?thesis by (simp add: findById_def)
  qed
qed

lemma findById_id: "findById coll i = Some p \<Longrightarrow> p_id p = i"
  by (auto simp: findById_def dest: find_Some_iff[THEN iffD1])

lemma findById_after_update:
  assumes f: "findById coll i = Some p" and keep: "\<And>q. p_id (upd q) = p_id q"
  shows "findById (fst (findByIdAndUpdate coll i' upd)) i = Some (if i' = i then upd p else p)"
proof (cases "i' = i")
  case True
  have "p_id p = i" using f by (rule findById_id)
  then have "p_id (upd p) = i" by (simp add: keep)
  with findByIdAndUpdate_found[OF f, of upd] True show ?thesis by auto
next
  case False
  with findByIdAndUpdate_other[of upd i' i coll] keep f show ?thesis by simp
qed

lemma view_POST_fst:
  "fst (view_POST ok coll i') =
     (if ok \<and> findById coll i' \<noteq> None
      then fst (findByIdAndUpdate coll i' (\<lambda>p. p\<lparr>views := views p + 1\<rparr>)) else coll)"
  by (simp add: view_POST_def split: option.split prod.split)

lemma like_POST_fst:
  "fst (like_POST ok coll i' body) =
     (case body of None \<Rightarrow> coll | Some j \<Rightarrow>
        (case destructure_liked j of None \<Rightarrow> coll | Some liked \<Rightarrow>
           if ok \<and> findById coll i' \<noteq> None
           then fst (findByIdAndUpdate coll i'
                  (\<lambda>p. p\<lparr>likes := likes p + (if truthy liked then 1 else - 1)\<rparr>))
           else coll))"
  by (simp add: like_POST_def split: option.split prod.split)

text \<open>One request: the project stays in the collection, its views do not go down, and
  its likes change by the request's delta.\<close>

lemma apply_op_effect:
  assumes f: "findById coll i = Some p"
  shows "\<exists>p'. findById (apply_op coll op) i = Some p' \<and> views p \<le> views p' \<and>
            likes p' = likes p + likes_delta i op"
proof (cases op)
  case (ViewOp ok i')
  let ?upd = "\<lambda>p::project. p\<lparr>views := views p + 1\<rparr>"
  have "findById (fst (findByIdAndUpdate coll i' ?upd)) i = Some (if i' = i then ?upd p else p)"
    using f by (rule findById_after_update) simp
  with f ViewOp show ?thesis by (simp add: view_POST_fst)
next
  case (LikeOp ok i' body)
  show ?thesis
  proof (cases body)
    case None
    with f LikeOp show ?thesis by (simp add: like_POST_fst)
  next
    case (Some j)
    show ?thesis
    proof (cases "destructure_liked j")
      case None
      with f LikeOp Some show ?thesis by (simp add: like_POST_fst)
    next
      case inner: (Some liked)
      let ?upd = "\<lambda>p::project. p\<lparr>likes := likes p + (if truthy liked then 1 else - 1)\<rparr>"
      have u: "findById (fst (findByIdAndUpdate coll i' ?upd)) i =
                 Some (if i' = i then ?upd p else p)"
        using f by (rule findById_after_update) simp
      show ?thesis
      proof (cases "ok \<and> findById coll i' \<noteq> None")
        case True
        with f LikeOp Some inner u show ?thesis by (simp add: like_POST_fst)
      next
        case False
        show ?thesis
        proof (cases ok)
          case True
          with False have n: "findById coll i' = None" by simp
          with f have "i' \<noteq> i" by auto
          with f LikeOp Some inner n show ?thesis by (simp add: like_POST_fst)
        next
          case False
          with f LikeOp Some inner show ?thesis by (simp add: like_POST_fst)
        qed
      qed
    qed
  qed
qed

text \<open>
  Claim C1, as stated: counters that start non-negative are never negative after any
  sequence of view and like/unlike requests.  It fails: one unlike request for a project
  with no likes leaves its likes counter at \<open>-1\<close>.
\<close>

theorem unlike_at_zero_goes_negative:
  "likes (sample_project ''p1'' 0 0) = 0 \<and> views (sample_project ''p1'' 0 0) = 0 \<and>
   run_ops [sample_project ''p1'' 0 0]
           [LikeOp True ''p1'' (Some (JObj [(''liked'', JBool False)]))]
     = [sample_project ''p1'' (- 1) 0] \<and>
   likes (sample_project ''p1'' (- 1) 0) < 0"
  by (simp add: sample_project_def like_POST_def findById_def)

text \<open>
  Claim C1, amended.  For every project in the collection whose views counter starts
  non-negative, after any sequence of view and like/unlike requests the project is still
  there, its views counter is not negative, and its likes counter is its starting value
  plus one for every like and minus one for every unlike that reached it: the endpoint
  has no floor at zero.
\<close>

theorem counters_after_requests:
  assumes "findById coll i = Some p" and "0 \<le> views p"
  shows "\<exists>p'. findById (run_ops coll ops) i = Some p' \<and> 0 \<le> views p' \<and>
            likes p' = likes p + sum_list (map (likes_delta i) ops)"
  using assms
proof (induction ops arbitrary: coll p)
  case Nil
  then show ?case by simp
next
  case (Cons op ops)
  from apply_op_effect[OF Cons.prems(1), of op] obtain q where
    q: "findById (apply_op coll op) i = Some q" "views p \<le> views q"
       "likes q = likes p + likes_delta i op" by blast
  from q(2) Cons.prems(2) have "0 \<le> views q" by simp
  from Cons.IH[OF q(1) this] obtain p' where
    "findById (run_ops (apply_op coll op) ops) i = Some p'" "0 \<le> views p'"
    "likes p' = likes q + sum_list (map (likes_delta i) ops)" by blast
  with q(3) show ?case by simp
qed

theorem counters_after_requests_witness:
  "findById [sample_project ''p1'' 2 0] ''p1'' = Some (sample_project ''p1'' 2 0) \<and>
   0 \<le> views (sample_project ''p1'' 2 0) \<and>
   (\<exists>p'. findById (run_ops [sample_project ''p1'' 2 0]
                      [ViewOp True ''p1'', LikeOp True ''p1'' (Some (JObj []))]) ''p1'' = Some p' \<and>
          0 \<le> views p' \<and> likes p' = 1)"
proof -
  have h1: "findById [sample_project ''p1'' 2 0] ''p1'' = Some (sample_project ''p1'' 2 0)"
    by (simp add: findById_def sample_project_def)
  have h2: "0 \<le> views (sample_project ''p1'' 2 0)"
    by (simp add: sample_project_def)
  have l: "likes (sample_project ''p1'' 2 0) = 2"
    by (simp add: sample_project_def)
  from counters_after_requests[OF h1 h2,
      of "[ViewOp True ''p1'', LikeOp True ''p1'' (Some (JObj []))]"]
  have "\<exists>p'. findById (run_ops [sample_project ''p1'' 2 0]
                      [ViewOp True ''p1'', LikeOp True ''p1'' (Some (JObj []))]) ''p1'' = Some p' \<and>
          0 \<le> views p' \<and> likes p' = 1"
    by (simp add: l)
  with h1 h2 show ?thesis by (intro conjI)
qed

text \<open>
  Claim C10.  A like request for an existing project whose body has no \<open>liked\<close> field, or a
  falsy one, is not rejected: it is treated as an unlike, the likes counter goes down by
  one, and the answer carries the new count with the message \<open>Project unliked\<close>.
\<close>

theorem like_POST_falsy_is_unlike:
  assumes "findById coll i = Some p"
    and "destructure_liked body = Some liked"
    and "\<not> truthy liked"
  shows "\<exists>coll'. like_POST True coll i (Some body) =
                    (coll', LikeOk (likes p - 1) ''Project unliked'') \<and>
                  findById coll' i = Some (p\<lparr>likes := likes p - 1\<rparr>)"
proof -
  let ?upd = "\<lambda>p::project. p\<lparr>likes := likes p + (if truthy liked then 1 else - 1)\<rparr>"
  have "p_id p = i" using assms(1) by (rule findById_id)
  then have "p_id (?upd p) = i" by simp
  with findByIdAndUpdate_found[OF assms(1), of ?upd] obtain coll' where
    u: "findByIdAndUpdate coll i ?upd = (coll', Some (?upd p))"
       "findById coll' i = Some (?upd p)" by blast
  from u assms show ?thesis by (simp add: like_POST_def)
qed

theorem like_POST_falsy_is_unlike_witness:
  "findById [sample_project ''p1'' 2 0] ''p1'' = Some (sample_project ''p1'' 2 0) \<and>
   destructure_liked (JObj []) = Some None \<and>
   \<not> truthy None \<and>
   (\<exists>coll'. like_POST True [sample_project ''p1'' 2 0] ''p1'' (Some (JObj [])) =
               (coll', LikeOk (likes (sample_project ''p1'' 2 0) - 1) ''Project unliked'') \<and>
             findById coll' ''p1'' =
               Some ((sample_project ''p1'' 2 0)\<lparr>likes := likes (sample_project ''p1'' 2 0) - 1\<rparr>))"
proof -
  have h1: "findById [sample_project ''p1'' 2 0] ''p1'' = Some (sample_project ''p1'' 2 0)"
    by (simp add: findById_def sample_project_def)
  have h2: "destructure_liked (JObj []) = Some None" by simp
  have h3: "\<not> truthy None" by simp
  from like_POST_falsy_is_unlike[OF h1 h2 h3] h1 h2 h3 show ?thesis by (intro conjI)
qed


section \<open>Properties of the listing endpoint\<close>

lemma ceil_div_ceiling:
  "l \<noteq> 0 \<Longrightarrow> ceil_div (int n) l = Num \<lceil>real n / real_of_int l\<rceil>"
  using ceiling_divide_eq_div[of "int n" l, where ?'a = real]
  by (simp add: ceil_div_def)

text \<open>
  Claim C6.  A listing request whose page \<open>p\<close> and limit \<open>L\<close> are at least 1 is answered
  with the slice of the matching, sorted documents that starts at offset \<open>(p - 1) * L\<close>
  and has at most \<open>L\<close> documents, and with the pagination data \<open>page = p\<close>, \<open>limit = L\<close>,
  \<open>total\<close> the number of matching documents and \<open>pages = ceil(total / L)\<close>.
\<close>

theorem listing_page_slice:
  assumes "parseInt (or_default (page_param q) ''1'') = Some p" and "1 \<le> p"
    and "parseInt (or_default (limit_param q) ''12'') = Some L" and "1 \<le> L"
  shows "\<exists>page_docs.
           GET True srt coll q =
             ListingOk page_docs
               \<lparr>lp_page = p, lp_limit = L,
                lp_total = int (length (filter (matches (build_filter q)) coll)),
                lp_pages = Num \<lceil>real (length (filter (matches (build_filter q)) coll))
                                  / real_of_int L\<rceil>\<rparr> \<and>
           page_docs = take (nat L) (drop (nat ((p - 1) * L))
                         (srt (build_sort q) (filter (matches (build_filter q)) coll))) \<and>
           int (length page_docs) \<le> L"
proof -
  have sk: "\<not> (p - 1) * L < 0" using assms(2,4) by (simp add: not_less)
  have ab: "\<bar>L\<bar> = L" "L \<noteq> 0" using assms(4) by auto
  have g: "GET True srt coll q =
             ListingOk (take (nat L) (drop (nat ((p - 1) * L))
                         (srt (build_sort q) (filter (matches (build_filter q)) coll))))
               \<lparr>lp_page = p, lp_limit = L,
                lp_total = int (length (filter (matches (build_filter q)) coll)),
                lp_pages = Num \<lceil>real (length (filter (matches (build_filter q)) coll))
                                  / real_of_int L\<rceil>\<rparr>"
    by (simp add: GET_def assms(1,3) find_sorted_page_def sk ab countDocuments_def
          ceil_div_ceiling Let_def)
  have "int (length (take (nat L) (drop (nat ((p - 1) * L))
          (srt (build_sort q) (filter (matches (build_filter q)) coll))))) \<le> L"
    using assms(4) by simp
  with g show ?thesis by blast
qed

lemma parseInt_2: "parseInt ''2'' = Some 2"
  by code_simp

theorem listing_page_slice_witness:
  "parseInt (or_default (page_param
      \<lparr>page_param = Some ''2'', limit_param = Some ''2'', category_param = Some ''poster'',
       status_param = None, sortBy_param = None, sortOrder_param = None\<rparr>) ''1'') = Some 2 \<and>
   (1::int) \<le> 2 \<and>
   parseInt (or_default (limit_param
      \<lparr>page_param = Some ''2'', limit_param = Some ''2'', category_param = Some ''poster'',
       status_param = None, sortBy_param = None, sortOrder_param = None\<rparr>) ''12'') = Some 2 \<and>
   (\<exists>page_docs pg.
      GET True (\<lambda>so docs. docs)
        [sample_project ''p1'' 0 0, sample_project ''p2'' 0 0, sample_project ''p3'' 0 0]
        \<lparr>page_param = Some ''2'', limit_param = Some ''2'', category_param = Some ''poster'',
         status_param = None, sortBy_param = None, sortOrder_param = None\<rparr>
        = ListingOk page_docs pg \<and> int (length page_docs) \<le> 2)"
proof -
  let ?q = "\<lparr>page_param = Some ''2'', limit_param = Some ''2'', category_param = Some ''poster'',
             status_param = None, sortBy_param = None, sortOrder_param = None\<rparr>"
  have h1: "parseInt (or_default (page_param ?q) ''1'') = Some 2"
    by (simp add: or_default_def parseInt_2)
  have h2: "(1::int) \<le> 2" by simp
  have h3: "parseInt (or_default (limit_param ?q) ''12'') = Some 2"
    by (simp add: or_default_def parseInt_2)
  from listing_page_slice[OF h1 h2 h3 h2, of "\<lambda>so docs. docs"
      "[sample_project ''p1'' 0 0, sample_project ''p2'' 0 0, sample_project ''p3'' 0 0]"]
  have "\<exists>page_docs pg.
      GET True (\<lambda>so docs. docs)
        [sample_project ''p1'' 0 0, sample_project ''p2'' 0 0, sample_project ''p3'' 0 0] ?q
        = ListingOk page_docs pg \<and> int (length page_docs) \<le> 2"
    by blast
  with h1 h2 h3 show ?thesis by (intro conjI)
qed


section \<open>Properties of the gallery component\<close>

text \<open>
  Claim C2 says that the local view counter is bumped only when the view request
  succeeds, never on a failed response.  \<open>handleProjectClick\<close> does not look at the
  response, unlike \<open>fetchProjects\<close> and \<open>handleLike\<close>, which test \<open>response.ok\<close>: when the
  endpoint answers 404 or 500 the promise resolves and the counter is bumped.  Here the
  project \<open>p1\<close> with 5 views is clicked and the response has \<open>ok = false\<close>; the loaded
  project ends with 6 views.
\<close>

theorem view_bumped_on_error_response:
  "handleProjectClick (initial_state\<lparr>projects := [sample_project ''p1'' 0 5]\<rparr>)
       (sample_project ''p1'' 0 5)
     = (initial_state\<lparr>projects := [sample_project ''p1'' 0 5],
                       pendingRequests := {''view-p1''}\<rparr>,
        Some (ViewCall (sample_project ''p1'' 0 5)))
   \<and> projects (handleProjectClick_settled
        (initial_state\<lparr>projects := [sample_project ''p1'' 0 5],
                        pendingRequests := {''view-p1''}\<rparr>)
        (sample_project ''p1'' 0 5) (Resolved False (None :: unit option)))
     = [sample_project ''p1'' 0 6]"
  by (simp add: handleProjectClick_def handleProjectClick_settled_def initial_state_def
        sample_project_def view_key_def)

lemma pending_fetchProjects_settled:
  "pendingRequests (fetchProjects_settled s pg flt out) = pendingRequests s - {list_key pg flt}"
  by (simp add: fetchProjects_settled_def Let_def
        split: fetch_outcome.split bool.split option.split)

lemma pending_handleProjectClick_settled:
  "pendingRequests (handleProjectClick_settled s p out) = pendingRequests s - {view_key p}"
  by (simp add: handleProjectClick_settled_def Let_def split: fetch_outcome.split)

lemma pending_handleLike_settled:
  "pendingRequests (handleLike_settled s p b out) = pendingRequests s - {like_key p}"
  by (simp add: handleLike_settled_def Let_def
        split: fetch_outcome.split bool.split option.split)

text \<open>
  Claim C8.  For each of the three actions, the request key is in the pending set once
  the part of the handler before the network call has run, and it is not in the pending
  set after the handler has settled, whatever the outcome of the call and whatever the
  state at that moment.
\<close>

theorem pending_key_released:
  "list_key pg flt \<in> pendingRequests (fst (fetchProjects s pg flt lm)) \<and>
   list_key pg flt \<notin> pendingRequests (fetchProjects_settled s2 pg flt o1) \<and>
   view_key p \<in> pendingRequests (fst (handleProjectClick s p)) \<and>
   view_key p \<notin> pendingRequests (handleProjectClick_settled s2 p o2) \<and>
   like_key p \<in> pendingRequests (fst (handleLike s p)) \<and>
   like_key p \<notin> pendingRequests (handleLike_settled s2 p b o3)"
  by (simp add: pending_fetchProjects_settled pending_handleProjectClick_settled
        pending_handleLike_settled fetchProjects_def handleProjectClick_def handleLike_def
        Let_def)

text \<open>
  Claim C5.  When a like action has issued its request and the request fails (the promise
  rejects, the response is not ok, or its body cannot be read), then whatever the state
  \<open>s2\<close> at that moment, the project's membership in the liked set is again what it was
  before the action and the loaded projects, so their likes counters, are untouched; if
  nothing else happened in between (\<open>s2 = s1\<close>), the liked set and the projects are
  exactly those from before the action.
\<close>

theorem like_rollback:
  assumes "handleLike s p = (s1, Some c)"
    and "out = Rejected \<or> out = Resolved False b \<or> out = Resolved True None"
  shows "c = LikeCall p (p_id p \<in> likedProjects s) \<and>
         (p_id p \<in> likedProjects s1) = (p_id p \<notin> likedProjects s) \<and>
         (p_id p \<in> likedProjects (handleLike_settled s2 p (p_id p \<in> likedProjects s) out))
           = (p_id p \<in> likedProjects s) \<and>
         projects (handleLike_settled s2 p (p_id p \<in> likedProjects s) out) = projects s2 \<and>
         likedProjects (handleLike_settled s1 p (p_id p \<in> likedProjects s) out)
           = likedProjects s \<and>
         projects (handleLike_settled s1 p (p_id p \<in> likedProjects s) out) = projects s"
proof -
  from assms(1) have np: "like_key p \<notin> pendingRequests s"
    by (auto simp: handleLike_def Let_def split: if_splits)
  with assms(1) have s1:
    "s1 = s\<lparr>likedProjects := (if p_id p \<in> likedProjects s then likedProjects s - {p_id p}
                               else insert (p_id p) (likedProjects s)),
            pendingRequests := insert (like_key p) (pendingRequests s)\<rparr>"
    and c: "c = LikeCall p (p_id p \<in> likedProjects s)"
    by (simp_all add: handleLike_def Let_def)
  have a: "(p_id p \<in> likedProjects s1) = (p_id p \<notin> likedProjects s)" by (simp add: s1)
  have b: "(p_id p \<in> likedProjects (handleLike_settled s2 p (p_id p \<in> likedProjects s) out))
           = (p_id p \<in> likedProjects s)"
    using assms(2) by (auto simp: handleLike_settled_def Let_def)
  have d: "projects (handleLike_settled s' p (p_id p \<in> likedProjects s) out) = projects s'"
    for s'
    using assms(2) by (auto simp: handleLike_settled_def Let_def)
  have e: "likedProjects (handleLike_settled s1 p (p_id p \<in> likedProjects s) out)
             = likedProjects s"
    using assms(2) by (auto simp: handleLike_settled_def Let_def s1)
  have f: "projects s1 = projects s" by (simp add: s1)
  from c a b d[of s2] e d[of s1] f show ?thesis by simp
qed


lemma like_key_p1: "like_key (sample_project ''p1'' 3 0) = ''like-p1''"
  by (simp add: like_key_def sample_project_def)

theorem like_rollback_witness:
  "handleLike (initial_state\<lparr>projects := [sample_project ''p1'' 3 0]\<rparr>)
       (sample_project ''p1'' 3 0)
     = (initial_state\<lparr>projects := [sample_project ''p1'' 3 0],
                       likedProjects := {''p1''}, pendingRequests := {''like-p1''}\<rparr>,
        Some (LikeCall (sample_project ''p1'' 3 0) False)) \<and>
   ((Resolved False None :: int fetch_outcome) = Rejected \<or>
    (Resolved False None :: int fetch_outcome) = Resolved False None \<or>
    (Resolved False None :: int fetch_outcome) = Resolved True None) \<and>
   likedProjects (handleLike_settled
       (initial_state\<lparr>projects := [sample_project ''p1'' 3 0],
                       likedProjects := {''p1''}, pendingRequests := {''like-p1''}\<rparr>)
       (sample_project ''p1'' 3 0)
       (p_id (sample_project ''p1'' 3 0)
          \<in> likedProjects (initial_state\<lparr>projects := [sample_project ''p1'' 3 0]\<rparr>))
       (Resolved False None))
     = likedProjects (initial_state\<lparr>projects := [sample_project ''p1'' 3 0]\<rparr>) \<and>
   projects (handleLike_settled
       (initial_state\<lparr>projects := [sample_project ''p1'' 3 0],
                       likedProjects := {''p1''}, pendingRequests := {''like-p1''}\<rparr>)
       (sample_project ''p1'' 3 0)
       (p_id (sample_project ''p1'' 3 0)
          \<in> likedProjects (initial_state\<lparr>projects := [sample_project ''p1'' 3 0]\<rparr>))
       (Resolved False None))
     = projects (initial_state\<lparr>projects := [sample_project ''p1'' 3 0]\<rparr>)"
proof -
  have h1: "handleLike (initial_state\<lparr>projects := [sample_project ''p1'' 3 0]\<rparr>)
       (sample_project ''p1'' 3 0)
     = (initial_state\<lparr>projects := [sample_project ''p1'' 3 0],
                       likedProjects := {''p1''}, pendingRequests := {''like-p1''}\<rparr>,
        Some (LikeCall (sample_project ''p1'' 3 0) False))"
    by (simp add: handleLike_def like_key_p1 Let_def) (simp add: initial_state_def sample_project_def)
  have h2: "(Resolved False None :: int fetch_outcome) = Rejected \<or>
    (Resolved False None :: int fetch_outcome) = Resolved False None \<or>
    (Resolved False None :: int fetch_outcome) = Resolved True None"
    by simp
  from like_rollback[OF h1 h2] h1 h2 show ?thesis by (intro conjI) blast+
qed

lemma settled_projects_ok:
  "projects (fetchProjects_settled s pg flt (Resolved True (Some d))) =
     (if pg = 1 then ar_projects d
      else projects s @ filter (\<lambda>p. p_id p \<notin> set (map p_id (projects s))) (ar_projects d))"
  by (simp add: fetchProjects_settled_def Let_def)

lemma merge_distinct:
  assumes "distinct (map p_id xs)" and "distinct (map p_id ys)"
  shows "distinct (map p_id (xs @ filter (\<lambda>p. p_id p \<notin> set (map p_id xs)) ys))"
proof -
  have "distinct (map p_id (filter (\<lambda>p. p_id p \<notin> set (map p_id xs)) ys))"
    using assms(2) by (rule distinct_map_filter)
  moreover have
    "set (map p_id xs) \<inter> set (map p_id (filter (\<lambda>p. p_id p \<notin> set (map p_id xs)) ys)) = {}"
    by (auto simp: image_iff)
  ultimately show ?thesis using assms(1) by simp
qed

text \<open>
  Claim C7.  A successful fetch of page 1 replaces the loaded projects with the response;
  a successful fetch of any other page appends the projects of the response whose
  identifier is not among the loaded ones.  Hence, when each of the two responses lists
  every identifier once, loading page 1 and then page 2 leaves no identifier twice in the
  loaded sequence, also when page 2 repeats identifiers of page 1.
\<close>

theorem listing_merge:
  assumes "pg \<noteq> 1"
    and "distinct (map p_id (ar_projects d1))" and "distinct (map p_id (ar_projects d2))"
  shows "projects (fetchProjects_settled s 1 flt (Resolved True (Some d))) = ar_projects d \<and>
         projects (fetchProjects_settled s pg flt (Resolved True (Some d))) =
           projects s @ filter (\<lambda>p. p_id p \<notin> set (map p_id (projects s))) (ar_projects d) \<and>
         distinct (map p_id (projects
           (fetchProjects_settled (fetchProjects_settled s 1 flt (Resolved True (Some d1)))
              2 flt (Resolved True (Some d2)))))"
  using assms by (simp add: settled_projects_ok merge_distinct del: map_append set_map)

theorem listing_merge_witness:
  "(2::int) \<noteq> 1 \<and>
   distinct (map p_id (ar_projects
      \<lparr>ar_projects = [sample_project ''p1'' 0 0, sample_project ''p2'' 0 0],
       ar_pagination = \<lparr>pg_page = 1, pg_limit = 2, pg_total = 3, pg_pages = 2\<rparr>\<rparr>)) \<and>
   distinct (map p_id (ar_projects
      \<lparr>ar_projects = [sample_project ''p2'' 0 0, sample_project ''p3'' 0 0],
       ar_pagination = \<lparr>pg_page = 2, pg_limit = 2, pg_total = 3, pg_pages = 2\<rparr>\<rparr>)) \<and>
   distinct (map p_id (projects
     (fetchProjects_settled
        (fetchProjects_settled initial_state 1 ''all'' (Resolved True (Some
           \<lparr>ar_projects = [sample_project ''p1'' 0 0, sample_project ''p2'' 0 0],
            ar_pagination = \<lparr>pg_page = 1, pg_limit = 2, pg_total = 3, pg_pages = 2\<rparr>\<rparr>)))
        2 ''all'' (Resolved True (Some
           \<lparr>ar_projects = [sample_project ''p2'' 0 0, sample_project ''p3'' 0 0],
            ar_pagination = \<lparr>pg_page = 2, pg_limit = 2, pg_total = 3, pg_pages = 2\<rparr>\<rparr>)))))"
proof -
  have h1: "(2::int) \<noteq> 1" by simp
  have h2: "distinct (map p_id (ar_projects
      \<lparr>ar_projects = [sample_project ''p1'' 0 0, sample_project ''p2'' 0 0],
       ar_pagination = \<lparr>pg_page = 1, pg_limit = 2, pg_total = 3, pg_pages = 2\<rparr>\<rparr>))"
    by (simp add: sample_project_def)
  have h3: "distinct (map p_id (ar_projects
      \<lparr>ar_projects = [sample_project ''p2'' 0 0, sample_project ''p3'' 0 0],
       ar_pagination = \<lparr>pg_page = 2, pg_limit = 2, pg_total = 3, pg_pages = 2\<rparr>\<rparr>))"
    by (simp add: sample_project_def)
  from listing_merge[OF h1 h2 h3, of initial_state "''all''"] h1 h2 h3
  show ?thesis by (intro conjI) blast+
qed

lemma fetchProjects_closure_fresh:
  "fetchProjects_closure s s pg flt lm = fetchProjects s pg flt lm"
  by (simp add: fetchProjects_closure_def fetchProjects_def)

text \<open>The guards do their work for a closure that has seen the first trigger: a closure
  whose render has the key in its pending set fetches nothing, and one whose render has
  \<open>isLoadingMore\<close> set does not load more.\<close>

lemma fetchProjects_closure_skips:
  "list_key pg flt \<in> pendingRequests r \<Longrightarrow> fetchProjects_closure r s pg flt lm = (s, None)"
  by (simp add: fetchProjects_closure_def)

lemma loadMoreProjects_skips:
  "isLoadingMore r \<Longrightarrow> loadMoreProjects r s = (s, None)"
  by (simp add: loadMoreProjects_def)

lemma list_key_1_all: "list_key 1 ''all'' = ''1-all''"
  by code_simp

lemma list_key_2_all: "list_key 2 ''all'' = ''2-all''"
  by code_simp

text \<open>
  Claim C9 says that while a listing request for a page and a filter is in flight, a
  second trigger for the same key issues no further network call, so that two "load
  more" triggers for one page give exactly one call.  The guards read the pending set,
  \<open>isLoadingMore\<close> and \<open>currentPage\<close> of the render that created the closure, not the state
  the first trigger has already updated.  Here the first page of three has been loaded
  (the state after the first fetch has settled), and \<open>loadMoreProjects\<close> of that render is
  invoked twice before the next render is committed: the first invocation issues the
  request for page 2 and puts its key in the pending set; the second, with that key
  pending, issues the request for page 2 again.
\<close>

theorem load_more_twice_in_one_render:
  "fetchProjects_settled (fst (fetchProjects initial_state 1 ''all'' False)) 1 ''all''
       (Resolved True (Some
          \<lparr>ar_projects = [sample_project ''p1'' 0 0],
           ar_pagination = \<lparr>pg_page = 1, pg_limit = 12, pg_total = 30, pg_pages = 3\<rparr>\<rparr>))
     = initial_state\<lparr>projects := [sample_project ''p1'' 0 0], loading := False,
                      totalPages := 3\<rparr> \<and>
   loadMoreProjects
       (initial_state\<lparr>projects := [sample_project ''p1'' 0 0], loading := False,
                       totalPages := 3\<rparr>)
       (initial_state\<lparr>projects := [sample_project ''p1'' 0 0], loading := False,
                       totalPages := 3\<rparr>)
     = (initial_state\<lparr>projects := [sample_project ''p1'' 0 0], loading := False,
                       totalPages := 3, currentPage := 2, isLoadingMore := True,
                       pendingRequests := {''2-all''}\<rparr>,
        Some (ListCall 2 ''all'')) \<and>
   call_key (ListCall 2 ''all'')
     \<in> pendingRequests
         (initial_state\<lparr>projects := [sample_project ''p1'' 0 0], loading := False,
                         totalPages := 3, currentPage := 2, isLoadingMore := True,
                         pendingRequests := {''2-all''}\<rparr>) \<and>
   loadMoreProjects
       (initial_state\<lparr>projects := [sample_project ''p1'' 0 0], loading := False,
                       totalPages := 3\<rparr>)
       (initial_state\<lparr>projects := [sample_project ''p1'' 0 0], loading := False,
                       totalPages := 3, currentPage := 2, isLoadingMore := True,
                       pendingRequests := {''2-all''}\<rparr>)
     = (initial_state\<lparr>projects := [sample_project ''p1'' 0 0], loading := False,
                       totalPages := 3, currentPage := 2, isLoadingMore := True,
                       pendingRequests := {''2-all''}\<rparr>,
        Some (ListCall 2 ''all''))"
  by (simp add: fetchProjects_def fetchProjects_settled_def loadMoreProjects_def
        fetchProjects_closure_def initial_state_def list_key_1_all list_key_2_all Let_def)

end
